theory Spec2Isabelle
  imports Main "HOL-Library.AList"
begin

section \<open>Strings and numbers of the host language\<close>

text \<open>
  A string of the program is a \<^typ>\<open>string\<close>: one \<^typ>\<open>char\<close> per UTF-16 code unit,
  which covers the code units below 256. A number of the program that holds an integer
  is \<open>Finite\<close> of that integer; the two zeros of the host language are both
  \<open>Finite 0\<close> (they are equal as values and as map keys, and print alike).
\<close>

datatype number = NaN | Finite int | PosInfinity | NegInfinity

definition code_unit :: "char \<Rightarrow> nat" where
  "code_unit c = of_char c"

definition is_digit :: "char \<Rightarrow> bool" where
  \<comment> \<open>the character class \<open>[0-9]\<close>\<close>
  "is_digit c = (48 \<le> code_unit c \<and> code_unit c \<le> 57)"

definition is_lower_hex :: "char \<Rightarrow> bool" where
  \<comment> \<open>the character class \<open>[a-f0-9]\<close>\<close>
  "is_lower_hex c = ((97 \<le> code_unit c \<and> code_unit c \<le> 102) \<or> is_digit c)"

definition is_line_terminator :: "char \<Rightarrow> bool" where
  \<comment> \<open>the code units that \<open>.\<close> of a regular expression without flags refuses\<close>
  "is_line_terminator c = (code_unit c = 10 \<or> code_unit c = 13)"

definition is_white_space :: "char \<Rightarrow> bool" where
  \<comment> \<open>what \<open>parseInt\<close> skips at the start of its argument\<close>
  "is_white_space c = (code_unit c \<in> {9, 10, 11, 12, 13, 32, 160})"

definition startsWith :: "string \<Rightarrow> string \<Rightarrow> bool" where
  "startsWith s p = (take (length p) s = p)"

fun strip_prefix :: "string \<Rightarrow> string \<Rightarrow> string option" where
  "strip_prefix [] s = Some s"
| "strip_prefix (p # ps) [] = None"
| "strip_prefix (p # ps) (c # cs) = (if p = c then strip_prefix ps cs else None)"

subsection \<open>Rounding an integer to a double\<close>

fun bit_length :: "nat \<Rightarrow> nat" where
  "bit_length n = (if n = 0 then 0 else Suc (bit_length (n div 2)))"

declare bit_length.simps [simp del]

definition round_double :: "nat \<Rightarrow> nat option" where
  \<comment> \<open>round to nearest, ties to even, on 53 significant bits; \<open>None\<close> is the overflow\<close>
  "round_double n =
     (if n < 2 ^ 53 then Some n
      else let k = bit_length n - 53;
               q = n div 2 ^ k;
               r = n mod 2 ^ k;
               h = 2 ^ (k - 1);
               q' = (if h < r \<or> (r = h \<and> odd q) then q + 1 else q);
               v = q' * 2 ^ k
           in if 2 ^ 1024 \<le> v then None else Some v)"

definition to_number :: "bool \<Rightarrow> nat \<Rightarrow> number" where
  "to_number neg n =
     (case round_double n of
        None \<Rightarrow> (if neg then NegInfinity else PosInfinity)
      | Some v \<Rightarrow> Finite (if neg then - int v else int v))"

subsection \<open>parseInt\<close>

definition digit_val :: "char \<Rightarrow> nat option" where
  "digit_val c =
     (let u = code_unit c in
      if 48 \<le> u \<and> u \<le> 57 then Some (u - 48)
      else if 97 \<le> u \<and> u \<le> 122 then Some (u - 87)
      else if 65 \<le> u \<and> u \<le> 90 then Some (u - 55)
      else None)"

definition radix_digit :: "nat \<Rightarrow> char \<Rightarrow> bool" where
  "radix_digit R c = (case digit_val c of None \<Rightarrow> False | Some v \<Rightarrow> v < R)"

fun digits_value :: "nat \<Rightarrow> nat \<Rightarrow> string \<Rightarrow> nat" where
  "digits_value R acc [] = acc"
| "digits_value R acc (c # cs) =
     digits_value R (acc * R + (case digit_val c of None \<Rightarrow> 0 | Some v \<Rightarrow> v)) cs"

definition parseInt :: "string \<Rightarrow> nat \<Rightarrow> number" where
  "parseInt str radix =
     (let S = dropWhile is_white_space str;
          neg = startsWith S ''-'';
          S1 = (if startsWith S ''+'' \<or> startsWith S ''-'' then tl S else S)
      in if 0 < radix \<and> (radix < 2 \<or> 36 < radix) then NaN
         else
           let stripPrefix = (radix = 0 \<or> radix = 16);
               hex = (stripPrefix \<and> (startsWith S1 ''0x'' \<or> startsWith S1 ''0X''));
               R = (if hex then 16 else if radix = 0 then 10 else radix);
               S2 = (if hex then drop 2 S1 else S1);
               Z = takeWhile (radix_digit R) S2
           in if Z = [] then NaN else to_number neg (digits_value R 0 Z))"

section \<open>The contract service\<close>

record HasChainId =
  chainId :: number

record ContractIdentity = HasChainId +
  address :: string

record ContractFileMatch = ContractIdentity +
  original :: string
  dir :: string
  subpath :: string

record ContractService =
  dirname :: string
  configBasename :: string
  inputBasename :: string
  metadataBasename :: string

record ContractServiceOptions =
  opt_dirname :: "string option"
  opt_configBasename :: "string option"
  opt_inputBasename :: "string option"
  opt_metadataBasename :: "string option"

definition DEFAULTS :: ContractService where
  "DEFAULTS = \<lparr> dirname = ''contracts'', configBasename = ''configs.json'',
      inputBasename = ''input.json'', metadataBasename = ''metadata.json'' \<rparr>"

definition new_ContractService :: "ContractServiceOptions option \<Rightarrow> ContractService" where
  "new_ContractService options =
     \<lparr> dirname = (case Option.bind options opt_dirname of
                     None \<Rightarrow> dirname DEFAULTS | Some d \<Rightarrow> d),
       configBasename = (case Option.bind options opt_configBasename of
                     None \<Rightarrow> configBasename DEFAULTS | Some d \<Rightarrow> d),
       inputBasename = (case Option.bind options opt_inputBasename of
                     None \<Rightarrow> inputBasename DEFAULTS | Some d \<Rightarrow> d),
       metadataBasename = (case Option.bind options opt_metadataBasename of
                     None \<Rightarrow> metadataBasename DEFAULTS | Some d \<Rightarrow> d) \<rparr>"

subsection \<open>What the host gives\<close>

datatype error = ENOENT | EISDIR | ENOTDIR | SyntaxError | WriteError

text \<open>
  What the host gives and the service only calls: the JSON parser and printer over the
  host's values \<open>'j\<close> (\<open>None\<close> is the parser's \<open>SyntaxError\<close>), the decoding of a
  buffer as UTF-8, \<open>fabs\<close> of the service's utilities, which makes a file name absolute,
  and the host's regular expressions for the directory names that the matcher below
  does not cover: \<open>RegExp_match d str\<close> is what the body of \<open>match\<close> then comes to on
  the input \<open>str\<close>, for the directory name \<open>d\<close>.
\<close>

record 'j host =
  JSON_parse :: "string \<Rightarrow> 'j option"
  JSON_stringify :: "'j \<Rightarrow> bool \<Rightarrow> string"
  utf8_toString :: "string \<Rightarrow> string"
  fabs :: "string \<Rightarrow> string"
  RegExp_match :: "string \<Rightarrow> string \<Rightarrow> error + ContractFileMatch option"

subsection \<open>match\<close>

text \<open>
  The regular expression of \<open>match\<close> is built from the text
  \<^verbatim>\<open>^(DIRNAME\/([0-9]+)\/(0x[a-f0-9]{40}))(\/.*|$)\<close>
  with the service's \<open>dirname\<close> pasted in for \<open>DIRNAME\<close> as it is, so that a
  pattern character of the directory name is read as a pattern character. Three kinds
  of directory name are told apart:
  \<^item> one whose characters are no pattern characters except \<open>.\<close>: each \<open>.\<close> stands for
    any code unit but a line terminator, every other character for itself, and the
    expression is matched as written below;
  \<^item> one that has parentheses besides, and with which the parentheses of the
    expression do not pair up: \<open>new RegExp\<close> throws a \<open>SyntaxError\<close>;
  \<^item> any other: left to the host (\<open>RegExp_match\<close>).
\<close>

definition regex_special :: "char \<Rightarrow> bool" where
  \<comment> \<open>the pattern characters; code unit 92 is the backslash\<close>
  "regex_special c = (c \<in> set ''^$.*+?()[]{}|'' \<or> code_unit c = 92)"

definition regex_literal :: "string \<Rightarrow> bool" where
  \<comment> \<open>no pattern character: the directory name stands for itself\<close>
  "regex_literal d = list_all (\<lambda>c. \<not> regex_special c) d"

definition dotted_literal :: "string \<Rightarrow> bool" where
  \<comment> \<open>no pattern character but \<open>.\<close>\<close>
  "dotted_literal d = list_all (\<lambda>c. c \<notin> set ''^$*+?()[]{}|'' \<and> code_unit c \<noteq> 92) d"

definition grouped_literal :: "string \<Rightarrow> bool" where
  \<comment> \<open>no pattern character but \<open>.\<close> and the parentheses\<close>
  "grouped_literal d = list_all (\<lambda>c. c \<notin> set ''^$*+?[]{}|'' \<and> code_unit c \<noteq> 92) d"

definition backslash :: char where
  "backslash = char_of (92 :: nat)"

definition pattern_source :: "string \<Rightarrow> string" where
  \<comment> \<open>the text given to \<open>new RegExp\<close>\<close>
  "pattern_source d =
     ''^('' @ d @ [backslash] @ ''/([0-9]+)'' @ [backslash] @ ''/(0x[a-f0-9]{40}))(''
       @ [backslash] @ ''/.*|$)''"

fun paren_depth :: "nat \<Rightarrow> string \<Rightarrow> nat option" where
  \<comment> \<open>the groups left open at the end of a text; \<open>None\<close> when a \<open>)\<close> closes no group\<close>
  "paren_depth k [] = Some k"
| "paren_depth k (c # cs) =
     (if c = CHR ''('' then paren_depth (Suc k) cs
      else if c = CHR '')'' then (case k of 0 \<Rightarrow> None | Suc j \<Rightarrow> paren_depth j cs)
      else paren_depth k cs)"

definition groups_paired :: "string \<Rightarrow> bool" where
  "groups_paired d = (paren_depth 0 (pattern_source d) = Some 0)"

text \<open>
  The expression, for a directory name of the first kind. It is anchored at the start,
  so there is one attempt, at position 0; the directory name takes as many code units
  as it has characters; \<open>[0-9]+\<close> is followed by \<open>/\<close>, which is no digit, so only the
  longest run of digits can succeed; the last group takes \<open>/\<close> and then every code
  unit up to the first line terminator, or else is empty at the end of the input.
\<close>

fun strip_pattern :: "string \<Rightarrow> string \<Rightarrow> string option" where
  "strip_pattern [] s = Some s"
| "strip_pattern (p # ps) [] = None"
| "strip_pattern (p # ps) (c # cs) =
     (if (if p = CHR ''.'' then \<not> is_line_terminator c else p = c)
      then strip_pattern ps cs else None)"

definition regex_tail :: "string \<Rightarrow> string option" where
  \<comment> \<open>the group \<^verbatim>\<open>(\/.*|$)\<close> on what follows the address\<close>
  "regex_tail r =
     (case r of
        [] \<Rightarrow> Some []
      | c # cs \<Rightarrow>
          if c = CHR ''/'' then Some (c # takeWhile (\<lambda>x. \<not> is_line_terminator x) cs)
          else None)"

text \<open>
  The groups 1 to 4 of a successful match, in order; \<open>None\<close> is the \<open>null\<close> of a
  failed one.
\<close>

definition regex_exec :: "string \<Rightarrow> string \<Rightarrow> (string \<times> string \<times> string \<times> string) option" where
  "regex_exec d str =
     Option.bind (strip_pattern d str) (\<lambda>r1.
     Option.bind (strip_prefix ''/'' r1) (\<lambda>r2.
       let ds = takeWhile is_digit r2; r3 = dropWhile is_digit r2 in
       if ds = [] then None else
     Option.bind (strip_prefix ''/'' r3) (\<lambda>r4.
     Option.bind (strip_prefix ''0x'' r4) (\<lambda>r5.
       let hs = take 40 r5; r6 = drop 40 r5 in
       if length hs = 40 \<and> list_all is_lower_hex hs then
         let raddress = ''0x'' @ hs;
             rdir = take (length d) str @ ''/'' @ ds @ ''/'' @ raddress in
         Option.bind (regex_tail r6) (\<lambda>rsubpath.
           Some (rdir, ds, raddress, rsubpath))
       else None))))"

definition match_result ::
  "string \<Rightarrow> (string \<times> string \<times> string \<times> string) option \<Rightarrow> ContractFileMatch option" where
  \<comment> \<open>the body of \<open>match\<close> after \<open>str.match(regex)\<close>\<close>
  "match_result str rmatch =
     (case rmatch of
        None \<Rightarrow> None
      | Some (rdir, rchainId, raddress, rsubpath) \<Rightarrow>
          Some \<lparr> chainId = (if startsWith rchainId ''0x''
                              then parseInt rchainId 16
                              else parseInt rchainId 10),
                 address = raddress,
                 original = str,
                 dir = rdir,
                 subpath = rsubpath \<rparr>)"

definition match :: "'j host \<Rightarrow> ContractService \<Rightarrow> string \<Rightarrow> error + ContractFileMatch option" where
  "match h svc str =
     (if dotted_literal (dirname svc) then Inr (match_result str (regex_exec (dirname svc) str))
      else if grouped_literal (dirname svc) \<and> \<not> groups_paired (dirname svc) then Inl SyntaxError
      else RegExp_match h (dirname svc) str)"

subsection \<open>The accepted shape, in the specification's words\<close>

text \<open>
  \<^verbatim>\<open><rootDirName>/<chainIdSegment>/<addressSegment>[/<anything>]\<close>: the chain
  segment is a decimal integer or a hexadecimal integer after \<open>0x\<close>, the address
  segment is \<open>0x\<close> and 40 lowercase hexadecimal digits. A segment ends at the next
  \<open>/\<close> or at the end of the path.
\<close>

definition is_hex_digit :: "char \<Rightarrow> bool" where
  "is_hex_digit c = (is_lower_hex c \<or> (65 \<le> code_unit c \<and> code_unit c \<le> 70))"

definition is_chainId_segment :: "string \<Rightarrow> bool" where
  "is_chainId_segment seg =
     ((0 < length seg \<and> list_all is_digit seg) \<or>
      (startsWith seg ''0x'' \<and> 2 < length seg \<and> list_all is_hex_digit (drop 2 seg)))"

definition is_address_segment :: "string \<Rightarrow> bool" where
  "is_address_segment seg =
     (startsWith seg ''0x'' \<and> length seg = 42 \<and> list_all is_lower_hex (drop 2 seg))"

definition not_slash :: "char \<Rightarrow> bool" where
  "not_slash c = (c \<noteq> CHR ''/'')"

definition accepted_shape :: "string \<Rightarrow> string \<Rightarrow> bool" where
  "accepted_shape root str =
     (case strip_prefix (root @ ''/'') str of
        None \<Rightarrow> False
      | Some r \<Rightarrow>
          is_chainId_segment (takeWhile not_slash r) \<and>
          (case dropWhile not_slash r of
             [] \<Rightarrow> False
           | c # r' \<Rightarrow> is_address_segment (takeWhile not_slash r')))"

section \<open>Path names\<close>

subsection \<open>Number.prototype.toString\<close>

definition digit_char :: "nat \<Rightarrow> char" where
  "digit_char d = char_of (48 + d)"

fun digits_of :: "nat \<Rightarrow> string" where
  "digits_of n = (if n < 10 then [digit_char n] else digits_of (n div 10) @ [digit_char (n mod 10)])"

declare digits_of.simps [simp del]

text \<open>
  A number prints with the fewest digits \<open>s\<close> (of which there are \<open>k\<close>) such that
  \<open>s \<times> 10\<^bsup>n-k\<^esup>\<close> rounds to the number, and among those the closest to it.
\<close>

definition exponent_text :: "string \<Rightarrow> nat \<Rightarrow> string" where
  "exponent_text s e =
     (case s of
        [] \<Rightarrow> []
      | c # cs \<Rightarrow> (if cs = [] then [c] else c # CHR ''.'' # cs) @ ''e+'' @ digits_of e)"

definition distance :: "nat \<Rightarrow> nat \<Rightarrow> nat" where
  "distance a b = (if a \<le> b then b - a else a - b)"

definition shortest_digits :: "nat \<Rightarrow> nat \<Rightarrow> nat \<Rightarrow> nat option" where
  \<comment> \<open>the \<open>k\<close>-digit \<open>s\<close> for the value \<open>v\<close> of \<open>n\<close> digits, when there is one\<close>
  "shortest_digits v n k =
     (let u = 10 ^ (n - k);
          lo = v div u;
          ok = (\<lambda>s. 10 ^ (k - 1) \<le> s \<and> s < 10 ^ k \<and> round_double (s * u) = Some v)
      in if ok lo \<and> ok (lo + 1)
         then (if distance (lo * u) v \<le> distance ((lo + 1) * u) v then Some lo else Some (lo + 1))
         else if ok lo then Some lo
         else if ok (lo + 1) then Some (lo + 1)
         else None)"

definition shortest :: "nat \<Rightarrow> (nat \<times> nat \<times> nat) option" where
  \<comment> \<open>\<open>(s, k, n)\<close> for the value \<open>v\<close>: \<open>k\<close> digits \<open>s\<close>, and \<open>s \<times> 10\<^bsup>n-k\<^esup>\<close> rounds to \<open>v\<close>\<close>
  "shortest v =
     (let n = length (digits_of v) in
      if round_double (10 ^ n) = Some v then Some (1, 1, Suc n)
      else
        case List.map_filter (\<lambda>k. map_option (\<lambda>s. (s, k, n)) (shortest_digits v n k)) [1..<Suc n] of
          [] \<Rightarrow> None
        | x # xs \<Rightarrow> Some x)"

text \<open>
  Below \<open>2\<^sup>5\<^sup>3\<close> every integer is a double, and no shorter run of digits rounds to it
  than its own without the zeros at its end: it prints with its own digits. From
  \<open>2\<^sup>5\<^sup>3\<close> on, the digits \<open>s\<close> are followed by \<open>n - k\<close> zeros when \<open>n \<le> 21\<close>, and
  the number prints in exponent notation otherwise. (\<open>Finite i\<close> stands for a number
  only when \<open>i\<close> is a double; the digits of \<open>v\<close> itself are printed where no \<open>s\<close> is found,
  which is not the case of a double.)
\<close>

definition nat_toString :: "nat \<Rightarrow> string" where
  "nat_toString v =
     (if v < 2 ^ 53 then digits_of v
      else case shortest v of
             None \<Rightarrow> digits_of v
           | Some (s, k, n) \<Rightarrow>
               if n \<le> 21 then digits_of s @ replicate (n - k) (CHR ''0'')
               else exponent_text (digits_of s) (n - 1))"

definition number_toString :: "number \<Rightarrow> string" where
  "number_toString x =
     (case x of
        NaN \<Rightarrow> ''NaN''
      | PosInfinity \<Rightarrow> ''Infinity''
      | NegInfinity \<Rightarrow> ''-Infinity''
      | Finite i \<Rightarrow> (if i < 0 then CHR ''-'' # nat_toString (nat (- i)) else nat_toString (nat i)))"

subsection \<open>path.join, on a POSIX host\<close>

fun split_path :: "string \<Rightarrow> string list" where
  "split_path [] = [[]]"
| "split_path (c # cs) =
     (if c = CHR ''/'' then [] # split_path cs
      else case split_path cs of
             [] \<Rightarrow> [[c]]
           | seg # segs \<Rightarrow> (c # seg) # segs)"

fun join_segs :: "string list \<Rightarrow> string" where
  "join_segs [] = []"
| "join_segs [s] = s"
| "join_segs (s # t # ts) = s @ ''/'' @ join_segs (t # ts)"

definition norm_step :: "bool \<Rightarrow> string list \<Rightarrow> string \<Rightarrow> string list" where
  \<comment> \<open>one segment of \<open>normalizeString\<close>: \<open>res\<close> is the result so far, as its segments\<close>
  "norm_step allowAboveRoot res seg =
     (if seg = [] \<or> seg = ''.'' then res
      else if seg = ''..'' then
        (if 0 < length res \<and> last res \<noteq> ''..'' then butlast res
         else if allowAboveRoot then res @ [''..'']
         else res)
      else res @ [seg])"

definition normalizeString :: "string \<Rightarrow> bool \<Rightarrow> string" where
  "normalizeString path allowAboveRoot =
     join_segs (foldl (norm_step allowAboveRoot) [] (split_path path))"

definition normalize :: "string \<Rightarrow> string" where
  "normalize path =
     (if path = [] then ''.''
      else
        let isAbsolute = (hd path = CHR ''/'');
            trailingSeparator = (last path = CHR ''/'');
            p = normalizeString path (\<not> isAbsolute)
        in if p = [] then (if isAbsolute then ''/'' else if trailingSeparator then ''./'' else ''.'')
           else let p' = (if trailingSeparator then p @ ''/'' else p)
                in if isAbsolute then CHR ''/'' # p' else p')"

definition path_join :: "string list \<Rightarrow> string" where
  "path_join args =
     (case filter (\<lambda>arg. 0 < length arg) args of
        [] \<Rightarrow> ''.''
      | a # as \<Rightarrow> normalize (join_segs (a # as)))"

subsection \<open>The names of a contract's directory and files\<close>

definition getChainDirname :: "ContractService \<Rightarrow> 'a HasChainId_scheme \<Rightarrow> string" where
  "getChainDirname svc identity =
     path_join [dirname svc, number_toString (chainId identity)]"

definition getAddressDirname :: "ContractService \<Rightarrow> 'a ContractIdentity_scheme \<Rightarrow> string" where
  "getAddressDirname svc options =
     path_join [getChainDirname svc \<lparr> chainId = chainId options \<rparr>, address options]"

definition getConfigFilename :: "ContractService \<Rightarrow> 'a ContractIdentity_scheme \<Rightarrow> string" where
  "getConfigFilename svc identity =
     path_join [getAddressDirname svc identity, configBasename svc]"

definition getInputFilename :: "ContractService \<Rightarrow> 'a ContractIdentity_scheme \<Rightarrow> string" where
  "getInputFilename svc identity =
     path_join [getAddressDirname svc identity, inputBasename svc]"

definition getMetadataFilename :: "ContractService \<Rightarrow> 'a ContractIdentity_scheme \<Rightarrow> string" where
  "getMetadataFilename svc identity =
     path_join [getAddressDirname svc identity, metadataBasename svc]"

text \<open>
  A segment that \<open>path.join\<close> leaves alone, and a directory name made of such
  segments (after an optional leading \<open>/\<close>).
\<close>

definition plain_segment :: "string \<Rightarrow> bool" where
  "plain_segment seg =
     (0 < length seg \<and> seg \<noteq> ''.'' \<and> seg \<noteq> ''..'' \<and> list_all not_slash seg)"

definition clean_path :: "string \<Rightarrow> bool" where
  "clean_path d =
     list_all plain_segment (split_path (if startsWith d ''/'' then tl d else d))"

section \<open>The store\<close>

text \<open>
  The file system, as the service sees it: the nodes by path name, in the order in which
  a directory lists them, and the path names the process may not write. The store is
  keyed by the path names in the form in which \<open>path.join\<close> gives them. A path name
  is looked up from its first directory down: a directory that is missing on the way is
  \<open>ENOENT\<close>, a regular file on the way is \<open>ENOTDIR\<close>.
\<close>

datatype node = File string | Dir

record store =
  nodes :: "(string \<times> node) list"
  locked :: "string list"

fun ancestors_after :: "string \<Rightarrow> string \<Rightarrow> string list" where
  \<comment> \<open>\<open>read\<close> is what has been read of the path name, before each \<open>/\<close> but a first one\<close>
  "ancestors_after read [] = []"
| "ancestors_after read (c # cs) =
     (if c = CHR ''/'' \<and> 0 < length read then read # ancestors_after (read @ [c]) cs
      else ancestors_after (read @ [c]) cs)"

definition ancestors :: "string \<Rightarrow> string list" where
  \<comment> \<open>the directories above a path name, outermost first\<close>
  "ancestors p = ancestors_after [] p"

fun first_failure :: "(string \<times> node) list \<Rightarrow> string list \<Rightarrow> error option" where
  "first_failure ns [] = None"
| "first_failure ns (a # as) =
     (case map_of ns a of
        None \<Rightarrow> Some ENOENT
      | Some (File buf) \<Rightarrow> Some ENOTDIR
      | Some Dir \<Rightarrow> first_failure ns as)"

definition lookup :: "store \<Rightarrow> string \<Rightarrow> error + node" where
  "lookup st p =
     (case first_failure (nodes st) (ancestors p) of
        Some e \<Rightarrow> Inl e
      | None \<Rightarrow> (case map_of (nodes st) p of None \<Rightarrow> Inl ENOENT | Some n \<Rightarrow> Inr n))"

definition readFile :: "store \<Rightarrow> string \<Rightarrow> error + string" where
  "readFile st p =
     (case lookup st p of
        Inl e \<Rightarrow> Inl e
      | Inr Dir \<Rightarrow> Inl EISDIR
      | Inr (File buf) \<Rightarrow> Inr buf)"

definition entry_name :: "string \<Rightarrow> string \<Rightarrow> string option" where
  \<comment> \<open>the name under which the directory \<open>d\<close> lists the path \<open>p\<close>, if it does\<close>
  "entry_name d p =
     (case strip_prefix (d @ ''/'') p of
        None \<Rightarrow> None
      | Some name \<Rightarrow> if plain_segment name then Some name else None)"

definition listing :: "store \<Rightarrow> string \<Rightarrow> string list" where
  \<comment> \<open>the names of the entries of the directory \<open>d\<close>, each once\<close>
  "listing st d = remdups (List.map_filter (entry_name d) (map fst (nodes st)))"

definition readdir :: "store \<Rightarrow> string \<Rightarrow> error + string list" where
  "readdir st d =
     (case lookup st d of
        Inl e \<Rightarrow> Inl e
      | Inr (File buf) \<Rightarrow> Inl ENOTDIR
      | Inr Dir \<Rightarrow> Inr (listing st d))"

definition fexists :: "store \<Rightarrow> string \<Rightarrow> bool" where
  \<comment> \<open>Modelled from the spec: \<open>fexists\<close> of the service's utilities is not among the
      sources; an existence check only, which never reads content.\<close>
  "fexists st filename = (case lookup st filename of Inl e \<Rightarrow> False | Inr n \<Rightarrow> True)"

definition writeJsonFile ::
  "'j host \<Rightarrow> string \<Rightarrow> 'j \<Rightarrow> bool \<Rightarrow> store \<Rightarrow> (error + unit) \<times> store" where
  \<comment> \<open>Modelled from the spec: \<open>writeJsonFile\<close> of the service's utilities is not among
      the sources; it writes the value as JSON text, pretty-printed on demand, over any
      prior content of the file, and fails with \<open>WriteError\<close> when the storage refuses.\<close>
  "writeJsonFile h filename obj pretty st =
     (if filename \<in> set (locked st) then (Inl WriteError, st)
      else case map_of (nodes st) filename of
             Some Dir \<Rightarrow> (Inl WriteError, st)
           | _ \<Rightarrow> (Inr (), st \<lparr> nodes := AList.update filename (File (JSON_stringify h obj pretty)) (nodes st) \<rparr>))"

definition forget_contents :: "store \<Rightarrow> store" where
  \<comment> \<open>the same store with every file emptied\<close>
  "forget_contents st =
     st \<lparr> nodes := map (\<lambda>(p, n). (p, case n of File buf \<Rightarrow> File [] | Dir \<Rightarrow> Dir)) (nodes st) \<rparr>"

record MatchedChain =
  contracts :: "(string \<times> ContractFileMatch) list"

type_synonym MatchedContracts = "(string \<times> ContractFileMatch) list"
type_synonym MatchedChains = "(number \<times> MatchedChain) list"

definition add_match :: "MatchedChains \<Rightarrow> ContractFileMatch \<Rightarrow> MatchedChains" where
  "add_match found m =
     (let cs = (case map_of found (chainId m) of None \<Rightarrow> [] | Some c \<Rightarrow> contracts c)
      in AList.update (chainId m) \<lparr> contracts = AList.update (address m) m cs \<rparr> found)"

fun match_all ::
  "'j host \<Rightarrow> ContractService \<Rightarrow> MatchedChains \<Rightarrow> string list \<Rightarrow> error + MatchedChains" where
  "match_all h svc found [] = Inr found"
| "match_all h svc found (filename # filenames) =
     (case match h svc filename of
        Inl e \<Rightarrow> Inl e
      | Inr None \<Rightarrow> match_all h svc found filenames
      | Inr (Some m) \<Rightarrow> match_all h svc (add_match found m) filenames)"

definition matchContractFiles ::
  "'j host \<Rightarrow> string list \<Rightarrow> ContractService \<Rightarrow> error + MatchedChains" where
  \<comment> \<open>Modelled from the spec: \<open>matchContractFiles\<close> is not among the sources; each name is
      resolved through \<open>match\<close>, the names that fail to resolve are skipped, and the
      matches are kept by chain and then by address. What \<open>match\<close> throws, it throws.\<close>
  "matchContractFiles h filenames svc = match_all h svc [] filenames"

section \<open>The operations of the service\<close>

fun readdir_all :: "store \<Rightarrow> string list \<Rightarrow> error + string list list" where
  \<comment> \<open>\<open>Promise.all\<close> over the listings: the first failure is the failure of all\<close>
  "readdir_all st [] = Inr []"
| "readdir_all st (d # ds) =
     (case readdir st d of
        Inl e \<Rightarrow> Inl e
      | Inr names \<Rightarrow>
          (case readdir_all st ds of
             Inl e \<Rightarrow> Inl e
           | Inr rest \<Rightarrow> Inr (map (\<lambda>name. path_join [d, name]) names # rest)))"

definition getContracts :: "'j host \<Rightarrow> ContractService \<Rightarrow> store \<Rightarrow> error + MatchedChains" where
  "getContracts h svc st =
     (let rootdir = dirname svc in
      case readdir st rootdir of
        Inl e \<Rightarrow> Inl e
      | Inr chainDirs \<Rightarrow>
          (case readdir_all st (map (\<lambda>chainDir. path_join [rootdir, chainDir]) chainDirs) of
             Inl e \<Rightarrow> Inl e
           | Inr chainAddrDirnames \<Rightarrow> matchContractFiles h (concat chainAddrDirnames) svc))"

definition getChainContracts ::
  "'j host \<Rightarrow> ContractService \<Rightarrow> 'a HasChainId_scheme \<Rightarrow> store \<Rightarrow> error + MatchedContracts" where
  "getChainContracts h svc identity st =
     (let chainDir = getChainDirname svc identity in
      case readdir st chainDir of
        Inl e \<Rightarrow> Inl e
      | Inr dirs \<Rightarrow>
          let dirnames = map (\<lambda>d. path_join [chainDir, d]) dirs in
          (case matchContractFiles h dirnames svc of
             Inl e \<Rightarrow> Inl e
           | Inr matches \<Rightarrow>
               Inr (case map_of matches (chainId identity) of
                      None \<Rightarrow> []
                    | Some c \<Rightarrow> contracts c)))"

definition saveMetadata ::
  "'j host \<Rightarrow> ContractService \<Rightarrow> 'a ContractIdentity_scheme \<Rightarrow> 'j \<Rightarrow> store \<Rightarrow> (error + unit) \<times> store" where
  "saveMetadata h svc identity metadata st =
     writeJsonFile h (getMetadataFilename svc identity) metadata True st"

definition hasMetadata :: "ContractService \<Rightarrow> 'a ContractIdentity_scheme \<Rightarrow> store \<Rightarrow> bool" where
  "hasMetadata svc identity st = fexists st (getMetadataFilename svc identity)"

definition read_json :: "'j host \<Rightarrow> string \<Rightarrow> store \<Rightarrow> error + 'j" where
  \<comment> \<open>\<open>readFile\<close>, then \<open>toString('utf-8')\<close>, then \<open>JSON.parse\<close>\<close>
  "read_json h filename st =
     (case readFile st (fabs h filename) of
        Inl e \<Rightarrow> Inl e
      | Inr buf \<Rightarrow>
          (case JSON_parse h (utf8_toString h buf) of
             None \<Rightarrow> Inl SyntaxError
           | Some v \<Rightarrow> Inr v))"

definition getConfig :: "'j host \<Rightarrow> ContractService \<Rightarrow> 'a ContractIdentity_scheme \<Rightarrow> store \<Rightarrow> error + 'j" where
  "getConfig h svc identity st = read_json h (getConfigFilename svc identity) st"

definition getInput :: "'j host \<Rightarrow> ContractService \<Rightarrow> 'a ContractIdentity_scheme \<Rightarrow> store \<Rightarrow> error + 'j" where
  "getInput h svc identity st = read_json h (getInputFilename svc identity) st"

subsection \<open>Calls on one service, in sequence\<close>

datatype 'j call =
    GetContracts
  | GetChainContracts HasChainId
  | SaveMetadata ContractIdentity 'j
  | HasMetadata ContractIdentity
  | GetConfig ContractIdentity
  | GetInput ContractIdentity
  | Match string

datatype 'j outcome =
    Rejected error
  | Chains MatchedChains
  | Contracts MatchedContracts
  | Saved
  | Answer bool
  | Json 'j
  | Matched "ContractFileMatch option"

definition settle :: "('a \<Rightarrow> 'j outcome) \<Rightarrow> error + 'a \<Rightarrow> 'j outcome" where
  "settle f r = (case r of Inl e \<Rightarrow> Rejected e | Inr v \<Rightarrow> f v)"

fun run :: "'j host \<Rightarrow> ContractService \<Rightarrow> 'j call \<Rightarrow> store \<Rightarrow> 'j outcome \<times> store" where
  "run h svc GetContracts st = (settle Chains (getContracts h svc st), st)"
| "run h svc (GetChainContracts identity) st = (settle Contracts (getChainContracts h svc identity st), st)"
| "run h svc (SaveMetadata identity metadata) st =
     (case saveMetadata h svc identity metadata st of
        (r, st') \<Rightarrow> (settle (\<lambda>u. Saved) r, st'))"
| "run h svc (HasMetadata identity) st = (Answer (hasMetadata svc identity st), st)"
| "run h svc (GetConfig identity) st = (settle Json (getConfig h svc identity st), st)"
| "run h svc (GetInput identity) st = (settle Json (getInput h svc identity st), st)"
| "run h svc (Match str) st = (settle Matched (match h svc str), st)"

fun run_all :: "'j host \<Rightarrow> ContractService \<Rightarrow> 'j call list \<Rightarrow> store \<Rightarrow> store" where
  "run_all h svc [] st = st"
| "run_all h svc (c # cs) st = run_all h svc cs (snd (run h svc c st))"

subsection \<open>The matches of one chain directory\<close>



subsection \<open>A host, services and stores to run the service on\<close>

definition text_host :: "string host" where
  \<comment> \<open>a host whose values are texts, and whose only JSON text is \<open>{}\<close>\<close>
  "text_host = \<lparr> JSON_parse = (\<lambda>s. if s = ''{}'' then Some s else None),
       JSON_stringify = (\<lambda>v pretty. v), utf8_toString = (\<lambda>buf. buf), fabs = (\<lambda>p. p),
       RegExp_match = (\<lambda>d str. Inr None) \<rparr>"

definition contract1 :: ContractIdentity where
  "contract1 = \<lparr> chainId = Finite 1, address = ''0xdeadbeefdeadbeefdeadbeefdeadbeefdeadbeef'' \<rparr>"

definition contract1_upper :: ContractIdentity where
  \<comment> \<open>\<open>contract1\<close>, with the first digits of its address in upper case\<close>
  "contract1_upper = \<lparr> chainId = Finite 1, address = ''0xDEADBEEFdeadbeefdeadbeefdeadbeefdeadbeef'' \<rparr>"

definition contract2 :: ContractIdentity where
  "contract2 = \<lparr> chainId = Finite 1, address = ''0x00000000000000000000000000000000000000aa'' \<rparr>"

definition contract3 :: ContractIdentity where
  "contract3 = \<lparr> chainId = Finite 1, address = ''0x00000000000000000000000000000000000000bb'' \<rparr>"

definition store1 :: store where
  \<comment> \<open>chain 1 with \<open>contract1\<close>, with \<open>contract2\<close>, whose config is no JSON text, and with
      a file that is no contract; \<open>contract3\<close> is not in the store\<close>
  "store1 = \<lparr> nodes = [(''contracts'', Dir), (''contracts/1'', Dir),
        (''contracts/1/0xdeadbeefdeadbeefdeadbeefdeadbeefdeadbeef'', Dir),
        (''contracts/1/0xdeadbeefdeadbeefdeadbeefdeadbeefdeadbeef/configs.json'', File ''{}''),
        (''contracts/1/0xdeadbeefdeadbeefdeadbeefdeadbeefdeadbeef/input.json'', File ''{}''),
        (''contracts/1/README'', File ''chain 1''),
        (''contracts/1/0x00000000000000000000000000000000000000aa'', Dir),
        (''contracts/1/0x00000000000000000000000000000000000000aa/configs.json'', File ''{'')],
      locked = [] \<rparr>"

definition store2 :: store where
  \<comment> \<open>chain 1 with a regular file under the address of \<open>contract1\<close>, and a regular file
      under the name of chain 2\<close>
  "store2 = \<lparr> nodes = [(''contracts'', Dir), (''contracts/1'', Dir),
        (''contracts/1/0xdeadbeefdeadbeefdeadbeefdeadbeefdeadbeef'', File []),
        (''contracts/2'', File [])],
      locked = [] \<rparr>"

definition dotted_service :: ContractService where
  \<comment> \<open>a service whose directory name has a dot\<close>
  "dotted_service = DEFAULTS \<lparr> dirname := ''a.b'' \<rparr>"

definition paren_service :: ContractService where
  \<comment> \<open>a service whose directory name is an opening parenthesis\<close>
  "paren_service = DEFAULTS \<lparr> dirname := ''('' \<rparr>"

definition slash_service :: ContractService where
  \<comment> \<open>the default directory name, written with a slash at its end\<close>
  "slash_service = DEFAULTS \<lparr> dirname := ''contracts/'' \<rparr>"


section \<open>Properties of match\<close>

lemmas char_eval = is_digit_def is_lower_hex_def is_hex_digit_def is_line_terminator_def
  code_unit_def not_slash_def regex_special_def is_white_space_def

lemmas match_eval = DEFAULTS_def match_def match_result_def regex_exec_def regex_tail_def
  startsWith_def regex_literal_def dotted_literal_def grouped_literal_def Let_def parseInt_def
  radix_digit_def digit_val_def to_number_def round_double_def

lemmas shape_eval = DEFAULTS_def accepted_shape_def is_chainId_segment_def
  is_address_segment_def startsWith_def

lemma backslash_chars: "backslash \<noteq> CHR ''(''" "backslash \<noteq> CHR '')''"
  by (simp_all add: backslash_def char_of_def bit_iff_odd)

lemma new_ContractService_default: "new_ContractService None = DEFAULTS"
  by (simp add: new_ContractService_def DEFAULTS_def)

lemma strip_prefix_Some: "strip_prefix p s = Some r \<longleftrightarrow> s = p @ r"
  by (induction p s rule: strip_prefix.induct) auto

lemma strip_pattern_Some:
  "strip_pattern d s = Some r \<Longrightarrow> s = take (length d) s @ r \<and> length d \<le> length s"
  by (induction d s rule: strip_pattern.induct) (auto split: if_splits)

lemma strip_pattern_literal: "regex_literal d \<Longrightarrow> strip_pattern d s = strip_prefix d s"
  by (induction d s rule: strip_pattern.induct) (auto simp: regex_literal_def regex_special_def)

lemma regex_literal_dotted: "regex_literal d \<Longrightarrow> dotted_literal d"
  by (auto simp: regex_literal_def dotted_literal_def regex_special_def list_all_iff)

lemma match_literal:
  "regex_literal (dirname svc) \<Longrightarrow>
     match h svc str = Inr (match_result str (regex_exec (dirname svc) str))"
  by (simp add: match_def regex_literal_dotted)

lemma slash_not_line_terminator: "\<not> is_line_terminator CHR ''/''"
  by (simp add: is_line_terminator_def code_unit_def)

lemma regex_tail_Some:
  "regex_tail r = Some t \<Longrightarrow>
     t = takeWhile (\<lambda>x. \<not> is_line_terminator x) r \<and> (r = [] \<or> hd r = CHR ''/'')"
  by (cases r) (auto simp: regex_tail_def slash_not_line_terminator split: if_splits)

lemma regex_exec_SomeD:
  assumes "regex_exec d str = Some (rdir, ds, ra, rs)"
  shows "\<exists>p hs rest. length p = length d \<and> strip_pattern d str = Some (drop (length d) str) \<and>
           p = take (length d) str \<and>
           str = rdir @ rest \<and> rdir = p @ ''/'' @ ds @ ''/'' @ ra \<and>
           ds \<noteq> [] \<and> list_all is_digit ds \<and> ra = ''0x'' @ hs \<and> length hs = 40 \<and>
           list_all is_lower_hex hs \<and> (rest = [] \<or> hd rest = CHR ''/'') \<and>
           rs = takeWhile (\<lambda>x. \<not> is_line_terminator x) rest"
proof -
  from assms obtain r1 r2 r4 r5 where
    1: "strip_pattern d str = Some r1" and 2: "r1 = ''/'' @ r2" and
    3: "takeWhile is_digit r2 \<noteq> []" and
    4: "dropWhile is_digit r2 = ''/'' @ r4" and 5: "r4 = ''0x'' @ r5" and
    6: "length (take 40 r5) = 40" and 7: "list_all is_lower_hex (take 40 r5)" and
    8: "regex_tail (drop 40 r5) = Some rs" and
    9: "ds = takeWhile is_digit r2" and 10: "ra = ''0x'' @ take 40 r5" and
    11: "rdir = take (length d) str @ ''/'' @ ds @ ''/'' @ ra"
    by (auto simp: regex_exec_def bind_eq_Some_conv strip_prefix_Some Let_def
             split: if_splits)
  define p where "p = take (length d) str"
  define hs where "hs = take 40 r5"
  define rest where "rest = drop 40 r5"
  from strip_pattern_Some [OF 1] have s: "str = p @ r1" and l: "length d \<le> length str"
    by (simp_all add: p_def)
  have lp: "length p = length d" using l by (simp add: p_def)
  have r1: "r1 = drop (length d) str"
    using s lp by (metis append_eq_conv_conj)
  have r5: "r5 = hs @ rest" by (simp add: hs_def rest_def)
  have "r2 = ds @ dropWhile is_digit r2" unfolding 9 by simp
  then have r2: "r2 = ds @ ''/'' @ ''0x'' @ hs @ rest" unfolding 4 5 r5 by simp
  have dig: "list_all is_digit ds" unfolding 9 list_all_iff
    by (auto dest: set_takeWhileD)
  have rdir: "rdir = p @ ''/'' @ ds @ ''/'' @ ra" unfolding 11 p_def ..
  have str: "str = rdir @ rest" unfolding rdir 10 hs_def [symmetric]
    by (subst s, subst 2, subst r2) simp
  have tl: "(rest = [] \<or> hd rest = CHR ''/'') \<and>
            rs = takeWhile (\<lambda>x. \<not> is_line_terminator x) rest"
    using regex_tail_Some [OF 8] unfolding rest_def by blast
  have sp: "strip_pattern d str = Some (drop (length d) str)" using 1 r1 by simp
  show ?thesis
    using lp sp str rdir 3 dig 10 6 7 tl unfolding 9 [symmetric] hs_def [symmetric] p_def [symmetric]
    by blast
qed

lemma digit_not_slash: "is_digit c \<Longrightarrow> not_slash c"
  by (auto simp: is_digit_def not_slash_def code_unit_def)

lemma lower_hex_not_slash: "is_lower_hex c \<Longrightarrow> not_slash c"
  by (auto simp: is_lower_hex_def is_digit_def not_slash_def code_unit_def)

lemma takeWhile_segment:
  assumes "list_all P seg" and "rest = [] \<or> \<not> P (hd rest)"
  shows "takeWhile P (seg @ rest) = seg" and "dropWhile P (seg @ rest) = rest"
  using assms by (induction seg) (cases rest; auto)+

text \<open>
  What a match is, for a directory name that has no pattern character: the input is the
  directory name, a chain segment of decimal digits, an address and a rest.
\<close>

lemma match_SomeD:
  assumes "regex_literal (dirname svc)" and "match h svc str = Inr (Some m)"
  shows "\<exists>ds hs rest. str = dir m @ rest \<and>
           dir m = dirname svc @ ''/'' @ ds @ ''/'' @ address m \<and>
           ds \<noteq> [] \<and> list_all is_digit ds \<and>
           address m = ''0x'' @ hs \<and> length hs = 40 \<and> list_all is_lower_hex hs \<and>
           (rest = [] \<or> hd rest = CHR ''/'') \<and>
           subpath m = takeWhile (\<lambda>x. \<not> is_line_terminator x) rest \<and>
           original m = str \<and>
           chainId m = (if startsWith ds ''0x'' then parseInt ds 16 else parseInt ds 10)"
proof -
  from assms obtain rdir ds ra rs where
    ex: "regex_exec (dirname svc) str = Some (rdir, ds, ra, rs)" and
    m: "m = \<lparr> chainId = (if startsWith ds ''0x'' then parseInt ds 16 else parseInt ds 10),
                address = ra, original = str, dir = rdir, subpath = rs \<rparr>"
    by (auto simp: match_literal match_result_def split: option.splits)
  from regex_exec_SomeD [OF ex] obtain p hs rest where
    p: "p = take (length (dirname svc)) str" and
    sp: "strip_pattern (dirname svc) str = Some (drop (length (dirname svc)) str)" and
    r: "str = rdir @ rest" "rdir = p @ ''/'' @ ds @ ''/'' @ ra"
      "ds \<noteq> []" "list_all is_digit ds" "ra = ''0x'' @ hs" "length hs = 40"
      "list_all is_lower_hex hs" "rest = [] \<or> hd rest = CHR ''/''"
      "rs = takeWhile (\<lambda>x. \<not> is_line_terminator x) rest"
    by blast
  from sp have "str = dirname svc @ drop (length (dirname svc)) str"
    by (simp add: strip_pattern_literal [OF assms(1)] strip_prefix_Some)
  then have "p = dirname svc" unfolding p by (metis append_eq_conv_conj)
  with r show ?thesis unfolding m by simp
qed

lemma shape_of_match:
  assumes "regex_literal (dirname svc)" and "match h svc str = Inr (Some m)"
  shows "accepted_shape (dirname svc) str"
proof -
  from match_SomeD [OF assms] obtain ds hs rest where
    str: "str = dir m @ rest" and
    d: "dir m = dirname svc @ ''/'' @ ds @ ''/'' @ address m" and
    ds: "ds \<noteq> []" "list_all is_digit ds" and
    a: "address m = ''0x'' @ hs" "length hs = 40" "list_all is_lower_hex hs" and
    rest: "rest = [] \<or> hd rest = CHR ''/''"
    by blast
  let ?r = "ds @ CHR ''/'' # (''0x'' @ hs) @ rest"
  have sp: "strip_prefix (dirname svc @ ''/'') str = Some ?r"
    by (simp add: strip_prefix_Some str d a)
  have ds': "list_all not_slash ds"
    using ds(2) by (auto simp: list_all_iff digit_not_slash)
  have c1: "takeWhile not_slash ?r = ds" and c2: "dropWhile not_slash ?r = CHR ''/'' # (''0x'' @ hs) @ rest"
    using takeWhile_segment [OF ds', of "CHR ''/'' # (''0x'' @ hs) @ rest"]
    by (simp_all add: not_slash_def)
  have hs': "list_all not_slash (''0x'' @ hs)"
    using a(3) lower_hex_not_slash by (auto simp: list_all_iff not_slash_def)
  have c3: "takeWhile not_slash ((''0x'' @ hs) @ rest) = ''0x'' @ hs"
    using takeWhile_segment(1) [OF hs', of rest] rest by (auto simp: not_slash_def)
  have "is_chainId_segment ds"
    using ds by (simp add: is_chainId_segment_def)
  moreover have "is_address_segment (''0x'' @ hs)"
    using a by (simp add: is_address_segment_def startsWith_def)
  ultimately show ?thesis
    unfolding accepted_shape_def sp option.case c1 c2 list.case c3 by simp
qed

text \<open>
  For a directory name that has no pattern character, an input outside the accepted
  shape is not matched.
\<close>

lemma match_outside_shape:
  assumes "regex_literal (dirname svc)" and "\<not> accepted_shape (dirname svc) str"
  shows "match h svc str = Inr None"
proof (cases "regex_exec (dirname svc) str")
  case None
  then show ?thesis by (simp add: match_literal [OF assms(1)] match_result_def)
next
  case (Some g)
  then obtain m where "match h svc str = Inr (Some m)"
    by (cases g) (auto simp: match_literal [OF assms(1)] match_result_def)
  from shape_of_match [OF assms(1) this] assms(2) show ?thesis by contradiction
qed

lemma digits_parseInt10:
  assumes "ds \<noteq> []" and "list_all is_digit ds"
  shows "\<not> startsWith ds ''0x''" and "parseInt ds 10 = to_number False (digits_value 10 0 ds)"
proof -
  obtain c cs where ds: "ds = c # cs" using assms(1) by (cases ds) auto
  have c: "is_digit c" using assms(2) ds by simp
  show "\<not> startsWith ds ''0x''"
  proof
    assume "startsWith ds ''0x''"
    then have "list_all is_digit ''0x''"
      using assms(2) unfolding startsWith_def
      by (metis append_take_drop_id list_all_append)
    then show False by (simp add: char_eval)
  qed
  have nw: "\<not> is_white_space c" using c by (auto simp: char_eval)
  have ns: "c \<noteq> CHR ''+''" "c \<noteq> CHR ''-''" using c by (auto simp: char_eval)
  have rd: "\<And>x. is_digit x \<Longrightarrow> radix_digit 10 x"
    by (auto simp: radix_digit_def digit_val_def char_eval)
  have tw: "takeWhile (radix_digit 10) ds = ds"
    using assms(2) rd by (auto simp: list_all_iff intro: takeWhile_eq_all_conv [THEN iffD2])
  show "parseInt ds 10 = to_number False (digits_value 10 0 ds)"
    unfolding parseInt_def using nw ns tw by (simp add: ds startsWith_def)
qed

text \<open>
  The chain segment of a matched path is a run of decimal digits, and the chain id is its
  decimal value as a double: the value itself below \<open>2\<^sup>5\<^sup>3\<close>.
\<close>

lemma match_chainId_decimal:
  assumes "regex_literal (dirname svc)" and "match h svc str = Inr (Some m)"
  shows "\<exists>ds. ds \<noteq> [] \<and> list_all is_digit ds \<and>
            take (length (dirname svc @ ''/'' @ ds @ ''/'')) str = dirname svc @ ''/'' @ ds @ ''/'' \<and>
            chainId m = to_number False (digits_value 10 0 ds) \<and>
            (digits_value 10 0 ds < 2 ^ 53 \<longrightarrow> chainId m = Finite (int (digits_value 10 0 ds)))"
proof -
  from match_SomeD [OF assms] obtain ds hs rest where
    str: "str = dir m @ rest" and
    d: "dir m = dirname svc @ ''/'' @ ds @ ''/'' @ address m" and
    ds: "ds \<noteq> []" "list_all is_digit ds" and
    c: "chainId m = (if startsWith ds ''0x'' then parseInt ds 16 else parseInt ds 10)"
    by blast
  have c': "chainId m = to_number False (digits_value 10 0 ds)"
    using c digits_parseInt10 [OF ds] by simp
  have "take (length (dirname svc @ ''/'' @ ds @ ''/'')) str = dirname svc @ ''/'' @ ds @ ''/''"
    unfolding str d by simp
  with ds c' show ?thesis
    by (intro exI [of _ ds]) (simp add: to_number_def round_double_def)
qed

text \<open>
  C1. A path whose chain segment is a hexadecimal integer after \<open>0x\<close> has the accepted
  shape, and \<open>match\<close> is to give it a chain id, the hexadecimal value of the segment.
  The expression of \<open>match\<close> takes decimal digits only in the chain segment: on the
  path of chain \<open>0x1\<close> below, which has the accepted shape, \<open>match\<close> returns null.
\<close>

theorem match_rejects_hex_chainId:
  "accepted_shape (dirname DEFAULTS) ''contracts/0x1/0xdeadbeefdeadbeefdeadbeefdeadbeefdeadbeef'' \<and>
   match h DEFAULTS ''contracts/0x1/0xdeadbeefdeadbeefdeadbeefdeadbeefdeadbeef'' = Inr None"
  by (simp add: shape_eval match_eval char_eval)

text \<open>
  C5. An input that does not have the accepted shape from its start is to give null.
  The directory name is pasted into the expression as it is, so that the dot of the
  directory name \<open>a.b\<close> stands for any character: the path below starts with \<open>axb\<close>,
  it does not have the accepted shape of the service of directory \<open>a.b\<close>, and \<open>match\<close>
  returns a match for it.
\<close>

theorem match_takes_dot_for_any_character:
  "\<not> accepted_shape (dirname dotted_service) ''axb/1/0xdeadbeefdeadbeefdeadbeefdeadbeefdeadbeef'' \<and>
   match h dotted_service ''axb/1/0xdeadbeefdeadbeefdeadbeefdeadbeefdeadbeef''
     = Inr (Some \<lparr> chainId = Finite 1,
              address = ''0xdeadbeefdeadbeefdeadbeefdeadbeefdeadbeef'',
              original = ''axb/1/0xdeadbeefdeadbeefdeadbeefdeadbeefdeadbeef'',
              dir = ''axb/1/0xdeadbeefdeadbeefdeadbeefdeadbeefdeadbeef'',
              subpath = [] \<rparr>)"
  by (simp add: dotted_service_def shape_eval match_eval char_eval)

text \<open>
  C6. The subpath of a match is to be everything after the address segment. On the path
  below, which has a line feed after the address segment, the subpath stops before the
  line feed.
\<close>

theorem match_subpath_stops_at_line_feed:
  "match h DEFAULTS (''contracts/123/0xdeadbeefdeadbeefdeadbeefdeadbeefdeadbeef/a'' @ [CHR 0x0A] @ ''b'')
     = Inr (Some \<lparr> chainId = Finite 123,
              address = ''0xdeadbeefdeadbeefdeadbeefdeadbeefdeadbeef'',
              original = ''contracts/123/0xdeadbeefdeadbeefdeadbeefdeadbeefdeadbeef/a'' @ [CHR 0x0A] @ ''b'',
              dir = ''contracts/123/0xdeadbeefdeadbeefdeadbeefdeadbeefdeadbeef'',
              subpath = ''/a'' \<rparr>) \<and>
   ''/a'' \<noteq> drop (length ''contracts/123/0xdeadbeefdeadbeefdeadbeefdeadbeefdeadbeef'')
             (''contracts/123/0xdeadbeefdeadbeefdeadbeefdeadbeefdeadbeef/a'' @ [CHR 0x0A] @ ''b'')"
  by (simp add: match_eval char_eval)

text \<open>
  C9. \<open>match\<close> is to throw on no input. With the directory name \<open>(\<close> the expression
  has a group that is not closed, and \<open>match\<close> throws a \<open>SyntaxError\<close> on every input.
\<close>

theorem match_throws_on_unpaired_group:
  "match h paren_service str = Inl SyntaxError \<and>
   run h paren_service (Match str) st = (Rejected SyntaxError, st)"
proof -
  have d: "dirname paren_service = ''(''"
    by (simp add: paren_service_def)
  have "\<not> dotted_literal ''(''" and "grouped_literal ''(''"
    by (simp_all add: dotted_literal_def grouped_literal_def code_unit_def)
  moreover have "\<not> groups_paired ''(''"
    by (simp add: groups_paired_def pattern_source_def backslash_chars)
  ultimately have "match h paren_service str = Inl SyntaxError"
    by (simp add: match_def d)
  then show ?thesis by (simp add: settle_def)
qed

text \<open>
  C10. \<open>dir\<close> and then \<open>subpath\<close> is to be the whole input. On the path below, which has
  a carriage return after the address segment, it is the input up to the carriage
  return.
\<close>

theorem match_dir_subpath_stops_at_carriage_return:
  "match h DEFAULTS (''contracts/5/0x00000000000000000000000000000000000000aa/x'' @ [CHR 0x0D] @ ''y'')
     = Inr (Some \<lparr> chainId = Finite 5,
              address = ''0x00000000000000000000000000000000000000aa'',
              original = ''contracts/5/0x00000000000000000000000000000000000000aa/x'' @ [CHR 0x0D] @ ''y'',
              dir = ''contracts/5/0x00000000000000000000000000000000000000aa'',
              subpath = ''/x'' \<rparr>) \<and>
   ''contracts/5/0x00000000000000000000000000000000000000aa'' @ ''/x''
     \<noteq> ''contracts/5/0x00000000000000000000000000000000000000aa/x'' @ [CHR 0x0D] @ ''y''"
  by (simp add: match_eval char_eval)

section \<open>Properties of the path names\<close>

lemma split_path_nonempty: "split_path s \<noteq> []"
  by (induction s) (auto split: list.splits)

lemma split_path_append: "split_path (x @ CHR ''/'' # y) = split_path x @ split_path y"
proof (induction x)
  case Nil
  then show ?case by simp
next
  case (Cons c x)
  then show ?case
    using split_path_nonempty [of x] by (cases "split_path x") auto
qed

lemma split_path_plain: "list_all not_slash s \<Longrightarrow> split_path s = [s]"
  by (induction s) (auto simp: not_slash_def)

lemma join_split_path: "join_segs (split_path s) = s"
proof (induction s)
  case Nil
  then show ?case by simp
next
  case (Cons c s)
  obtain t ts where ts: "split_path s = t # ts"
    using split_path_nonempty [of s] by (cases "split_path s") auto
  show ?case
  proof (cases "c = CHR ''/''")
    case True
    with Cons ts show ?thesis by simp
  next
    case False
    with Cons ts show ?thesis by (cases ts) auto
  qed
qed

lemma join_segs_snoc: "segs \<noteq> [] \<Longrightarrow> join_segs (segs @ [s]) = join_segs segs @ ''/'' @ s"
  by (induction segs rule: join_segs.induct) auto

lemma split_join_segs:
  "segs \<noteq> [] \<Longrightarrow> list_all plain_segment segs \<Longrightarrow> split_path (join_segs segs) = segs"
proof (induction segs rule: join_segs.induct)
  case 1
  then show ?case by simp
next
  case (2 s)
  then show ?case by (simp add: split_path_plain plain_segment_def)
next
  case (3 s t ts)
  then show ?case
    using split_path_append [of s "join_segs (t # ts)"]
    by (simp add: split_path_plain plain_segment_def)
qed

lemma norm_step_plain: "plain_segment seg \<Longrightarrow> norm_step a res seg = res @ [seg]"
  by (auto simp: norm_step_def plain_segment_def)

lemma foldl_norm_step_plain:
  "list_all plain_segment segs \<Longrightarrow> foldl (norm_step a) res segs = res @ segs"
  by (induction segs arbitrary: res) (auto simp: norm_step_plain)

lemma join_segs_plain:
  assumes "segs \<noteq> []" and "list_all plain_segment segs"
  shows "join_segs segs \<noteq> []" and "hd (join_segs segs) \<noteq> CHR ''/''"
    and "last (join_segs segs) \<noteq> CHR ''/''"
  using assms
  by (induction segs rule: join_segs.induct)
     (auto simp: plain_segment_def list_all_iff not_slash_def)

lemma normalize_plain:
  assumes "segs \<noteq> []" and "list_all plain_segment segs"
  shows "normalize (join_segs segs) = join_segs segs"
    and "normalize (CHR ''/'' # join_segs segs) = CHR ''/'' # join_segs segs"
proof -
  note j = join_segs_plain [OF assms]
  have n: "normalizeString (join_segs segs) a = join_segs segs" for a
    by (simp add: normalizeString_def split_join_segs [OF assms] foldl_norm_step_plain assms(2))
  have "split_path (CHR ''/'' # join_segs segs) = [] # segs"
    by (simp add: split_join_segs [OF assms])
  then have n': "normalizeString (CHR ''/'' # join_segs segs) a = join_segs segs" for a
    by (simp add: normalizeString_def norm_step_def foldl_norm_step_plain assms(2))
  show "normalize (join_segs segs) = join_segs segs"
    using j by (simp add: normalize_def n Let_def)
  show "normalize (CHR ''/'' # join_segs segs) = CHR ''/'' # join_segs segs"
    using j by (simp add: normalize_def n' Let_def)
qed

lemma clean_pathD:
  assumes "clean_path d"
  shows "\<exists>pre segs. (pre = [] \<or> pre = ''/'') \<and> segs \<noteq> [] \<and> list_all plain_segment segs \<and>
           d = pre @ join_segs segs"
proof -
  let ?body = "if startsWith d ''/'' then tl d else d"
  have "d = (if startsWith d ''/'' then ''/'' else []) @ ?body"
    by (cases d) (auto simp: startsWith_def)
  then have "d = (if startsWith d ''/'' then ''/'' else []) @ join_segs (split_path ?body)"
    by (simp only: join_split_path)
  moreover have "list_all plain_segment (split_path ?body)"
    using assms by (simp add: clean_path_def)
  ultimately show ?thesis
    using split_path_nonempty [of ?body] by (metis (full_types))
qed

lemma clean_pathI:
  assumes "pre = [] \<or> pre = ''/''" and "segs \<noteq> []" and "list_all plain_segment segs"
  shows "clean_path (pre @ join_segs segs)"
proof -
  note j = join_segs_plain [OF assms(2,3)]
  have "\<not> startsWith (join_segs segs) ''/''"
    using j by (cases "join_segs segs") (auto simp: startsWith_def)
  with assms show ?thesis
    by (auto simp: clean_path_def startsWith_def split_join_segs)
qed

lemma path_join_clean:
  assumes "clean_path d" and "plain_segment s"
  shows "path_join [d, s] = d @ ''/'' @ s" and "clean_path (d @ ''/'' @ s)"
proof -
  from clean_pathD [OF assms(1)] obtain pre segs where
    pre: "pre = [] \<or> pre = ''/''" and segs: "segs \<noteq> []" "list_all plain_segment segs" and
    d: "d = pre @ join_segs segs"
    by blast
  have segs': "segs @ [s] \<noteq> []" "list_all plain_segment (segs @ [s])"
    using segs assms(2) by simp_all
  have e: "d @ ''/'' @ s = pre @ join_segs (segs @ [s])"
    by (simp add: d join_segs_snoc [OF segs(1)])
  have "d \<noteq> []" using join_segs_plain(1) [OF segs] d by simp
  moreover have "s \<noteq> []" using assms(2) by (auto simp: plain_segment_def)
  ultimately have "path_join [d, s] = normalize (d @ ''/'' @ s)"
    by (simp add: path_join_def)
  also have "\<dots> = d @ ''/'' @ s"
    unfolding e using pre normalize_plain [OF segs'] by auto
  finally show "path_join [d, s] = d @ ''/'' @ s" .
  show "clean_path (d @ ''/'' @ s)"
    unfolding e by (rule clean_pathI [OF pre segs'])
qed


lemma is_digit_digit_char: "d < 10 \<Longrightarrow> is_digit (digit_char d)"
  by (simp add: is_digit_def digit_char_def code_unit_def)


lemma digits_of_small: "n < 10 \<Longrightarrow> digits_of n = [digit_char n]"
  by (subst digits_of.simps) simp

lemma digits_of_large:
  "10 \<le> n \<Longrightarrow> digits_of n = digits_of (n div 10) @ [digit_char (n mod 10)]"
  by (subst digits_of.simps) simp

lemma digits_of_digits: "digits_of n \<noteq> [] \<and> list_all is_digit (digits_of n)"
proof (induction n rule: digits_of.induct)
  case (1 n)
  show ?case
  proof (cases "n < 10")
    case True
    then show ?thesis by (simp add: digits_of_small is_digit_digit_char)
  next
    case False
    with 1 show ?thesis by (simp add: digits_of_large is_digit_digit_char)
  qed
qed



lemma digits_plain:
  assumes "ds \<noteq> []" and "list_all is_digit ds"
  shows "plain_segment ds"
proof -
  have "list_all not_slash ds"
    using assms(2) digit_not_slash by (auto simp: list_all_iff)
  moreover have "ds \<noteq> ''.''" "ds \<noteq> ''..''"
    using assms(2) by (auto simp: char_eval)
  ultimately show ?thesis using assms(1) by (simp add: plain_segment_def)
qed


text \<open>Whatever the number, its text is one path segment that \<open>path.join\<close> leaves alone.\<close>

lemma numeric_text_plain:
  assumes "s \<noteq> []" and "is_digit (hd s)"
    and "list_all (\<lambda>c. is_digit c \<or> c = CHR ''.'' \<or> c = CHR ''e'' \<or> c = CHR ''+'') s"
  shows "plain_segment s" and "plain_segment (CHR ''-'' # s)"
proof -
  have ns: "list_all not_slash s"
    using assms(3) digit_not_slash by (auto simp: list_all_iff not_slash_def)
  obtain c cs where s: "s = c # cs" using assms(1) by (cases s) auto
  have "c \<noteq> CHR ''.''" using assms(2) s by (auto simp: char_eval)
  then show "plain_segment s" using ns s by (auto simp: plain_segment_def)
  show "plain_segment (CHR ''-'' # s)" using ns by (simp add: plain_segment_def not_slash_def)
qed

lemma digits_of_numeric:
  "digits_of n \<noteq> []" "is_digit (hd (digits_of n))"
  "list_all (\<lambda>c. is_digit c \<or> c = CHR ''.'' \<or> c = CHR ''e'' \<or> c = CHR ''+'') (digits_of n)"
proof -
  note d = digits_of_digits [of n]
  show "digits_of n \<noteq> []" using d by simp
  then show "is_digit (hd (digits_of n))" using d by (cases "digits_of n") auto
  show "list_all (\<lambda>c. is_digit c \<or> c = CHR ''.'' \<or> c = CHR ''e'' \<or> c = CHR ''+'') (digits_of n)"
    using d by (auto simp: list_all_iff)
qed

lemma nat_toString_numeric:
  "nat_toString v \<noteq> [] \<and> is_digit (hd (nat_toString v)) \<and>
   list_all (\<lambda>c. is_digit c \<or> c = CHR ''.'' \<or> c = CHR ''e'' \<or> c = CHR ''+'') (nat_toString v)"
proof -
  let ?ok = "\<lambda>s. s \<noteq> [] \<and> is_digit (hd s) \<and>
    list_all (\<lambda>c. is_digit c \<or> c = CHR ''.'' \<or> c = CHR ''e'' \<or> c = CHR ''+'') s"
  have zero: "is_digit CHR ''0''" by (simp add: char_eval)
  have a: "?ok (digits_of n)" for n using digits_of_numeric [of n] by simp
  have b: "?ok (digits_of s @ replicate m CHR ''0'')" for s m
    using digits_of_numeric [of s] zero by (auto simp: list_all_iff)
  have c: "?ok (exponent_text (digits_of s) e)" for s e
  proof -
    obtain x xs where x: "digits_of s = x # xs"
      using digits_of_numeric(1) [of s] by (cases "digits_of s") auto
    show ?thesis
      using digits_of_numeric [of s] digits_of_numeric [of e]
      by (auto simp: exponent_text_def x list_all_iff)
  qed
  show ?thesis
    unfolding nat_toString_def using a b c
    by (simp split: option.splits prod.splits)
qed

lemma number_toString_plain: "plain_segment (number_toString x)"
proof (cases x)
  case (Finite i)
  then show ?thesis
    using numeric_text_plain [of "nat_toString (nat i)"] numeric_text_plain [of "nat_toString (nat (- i))"]
      nat_toString_numeric [of "nat i"] nat_toString_numeric [of "nat (- i)"]
    by (simp add: number_toString_def)
qed (simp_all add: number_toString_def plain_segment_def not_slash_def)

lemma getChainDirname_clean:
  assumes "clean_path (dirname svc)"
  shows "getChainDirname svc identity = dirname svc @ ''/'' @ number_toString (chainId identity)"
    and "clean_path (dirname svc @ ''/'' @ number_toString (chainId identity))"
  using path_join_clean [OF assms number_toString_plain, of "chainId identity"]
  by (simp_all add: getChainDirname_def)

lemma getAddressDirname_clean:
  assumes "clean_path (dirname svc)" and "plain_segment (address identity)"
  shows "getAddressDirname svc identity =
           dirname svc @ ''/'' @ number_toString (chainId identity) @ ''/'' @ address identity"
    and "clean_path (dirname svc @ ''/'' @ number_toString (chainId identity) @ ''/'' @ address identity)"
proof -
  have c: "getChainDirname svc \<lparr> chainId = chainId identity \<rparr> =
      dirname svc @ ''/'' @ number_toString (chainId identity)"
    using getChainDirname_clean(1) [OF assms(1), of "\<lparr> chainId = chainId identity \<rparr>"] by simp
  note j = path_join_clean [OF getChainDirname_clean(2) [OF assms(1), of identity] assms(2)]
  show "getAddressDirname svc identity =
      dirname svc @ ''/'' @ number_toString (chainId identity) @ ''/'' @ address identity"
    using j(1) by (simp add: getAddressDirname_def c)
  show "clean_path (dirname svc @ ''/'' @ number_toString (chainId identity) @ ''/'' @ address identity)"
    using j(2) by simp
qed

lemma filename_clean:
  assumes "clean_path (dirname svc)" and "plain_segment (address identity)"
    and "plain_segment base"
  shows "path_join [getAddressDirname svc identity, base] =
           dirname svc @ ''/'' @ number_toString (chainId identity) @ ''/'' @ address identity
             @ ''/'' @ base"
  using path_join_clean(1) [OF getAddressDirname_clean(2) [OF assms(1,2)] assms(3)]
  by (simp add: getAddressDirname_clean(1) [OF assms(1,2)])

lemmas path_eval = getMetadataFilename_def getConfigFilename_def getInputFilename_def
  getAddressDirname_def getChainDirname_def path_join_def normalize_def normalizeString_def
  norm_step_def number_toString_def nat_toString_def digits_of_small digits_of_large
  digit_char_def char_of_def bit_iff_odd DEFAULTS_def Let_def

lemma startsWith_iff: "startsWith s p \<longleftrightarrow> (\<exists>r. s = p @ r)"
  unfolding startsWith_def
  by (metis append_eq_conv_conj append_take_drop_id)

lemma is_address_segment_iff:
  "is_address_segment a \<longleftrightarrow>
     (\<exists>hs. a = ''0x'' @ hs \<and> length hs = 40 \<and> list_all is_lower_hex hs)"
  by (auto simp: is_address_segment_def startsWith_iff)

lemma plain_address:
  assumes "is_address_segment a"
  shows "plain_segment a"
proof -
  from assms obtain hs where a: "a = ''0x'' @ hs" and h: "list_all is_lower_hex hs"
    by (auto simp: is_address_segment_iff)
  have "list_all not_slash hs"
    using h lower_hex_not_slash by (auto simp: list_all_iff)
  then show ?thesis by (simp add: a plain_segment_def not_slash_def)
qed

lemma clean_path_DEFAULTS: "clean_path (dirname DEFAULTS)"
  by (simp add: clean_path_def plain_segment_def startsWith_def DEFAULTS_def not_slash_def)

lemma plain_basenames_DEFAULTS:
  "plain_segment (configBasename DEFAULTS)" "plain_segment (inputBasename DEFAULTS)"
  "plain_segment (metadataBasename DEFAULTS)"
  by (simp_all add: plain_segment_def DEFAULTS_def not_slash_def)


section \<open>Properties of the names of a contract\<close>

lemmas store_eval = hasMetadata_def fexists_def lookup_def ancestors_def saveMetadata_def
  writeJsonFile_def getConfig_def getInput_def read_json_def readFile_def readdir_def
  store1_def store2_def text_host_def

text \<open>
  C2, as the claim states it: two identities that differ only in the letter case of the
  address are one contract to every operation. They are not: their directories differ,
  and after the metadata of \<open>contract1\<close> is saved, \<open>contract1\<close> has metadata and
  \<open>contract1_upper\<close> has none.
\<close>

theorem address_case_counterexample:
  "getAddressDirname DEFAULTS contract1 = ''contracts/1/0xdeadbeefdeadbeefdeadbeefdeadbeefdeadbeef'' \<and>
   getAddressDirname DEFAULTS contract1_upper = ''contracts/1/0xDEADBEEFdeadbeefdeadbeefdeadbeefdeadbeef'' \<and>
   hasMetadata DEFAULTS contract1 (snd (saveMetadata text_host DEFAULTS contract1 ''{}'' store1)) \<and>
   \<not> hasMetadata DEFAULTS contract1_upper (snd (saveMetadata text_host DEFAULTS contract1 ''{}'' store1))"
  by (simp add: path_eval store_eval contract1_def contract1_upper_def)

text \<open>
  C2, amended. The service does not change the case of an address: the directory and the
  file names of an identity hold its address as it is given. For a service whose
  directory name and base names \<open>path.join\<close> leaves as they are, two identities of one
  chain whose addresses are single path segments get the same directory, and the same
  config, input and metadata file names, exactly when their addresses are the same
  string, letter case included.
\<close>

theorem address_used_verbatim:
  fixes i j :: ContractIdentity
  assumes "clean_path (dirname svc)"
    and "plain_segment (configBasename svc)"
    and "plain_segment (inputBasename svc)"
    and "plain_segment (metadataBasename svc)"
    and "chainId j = chainId i"
    and "plain_segment (address i)" and "plain_segment (address j)"
  shows "getAddressDirname svc i =
           dirname svc @ ''/'' @ number_toString (chainId i) @ ''/'' @ address i \<and>
         (getAddressDirname svc i = getAddressDirname svc j \<longleftrightarrow> address i = address j) \<and>
         (getConfigFilename svc i = getConfigFilename svc j \<longleftrightarrow> address i = address j) \<and>
         (getInputFilename svc i = getInputFilename svc j \<longleftrightarrow> address i = address j) \<and>
         (getMetadataFilename svc i = getMetadataFilename svc j \<longleftrightarrow> address i = address j)"
proof -
  let ?D = "dirname svc @ ''/'' @ number_toString (chainId i) @ ''/''"
  have di: "getAddressDirname svc i = ?D @ address i"
    using getAddressDirname_clean(1) [OF assms(1,6)] by simp
  have dj: "getAddressDirname svc j = ?D @ address j"
    using getAddressDirname_clean(1) [OF assms(1,7)] assms(5) by simp
  have fi: "path_join [getAddressDirname svc i, base] = ?D @ address i @ ''/'' @ base"
    if "plain_segment base" for base
    using filename_clean [OF assms(1,6) that] by simp
  have fj: "path_join [getAddressDirname svc j, base] = ?D @ address j @ ''/'' @ base"
    if "plain_segment base" for base
    using filename_clean [OF assms(1,7) that] assms(5) by simp
  have d: "getAddressDirname svc i = getAddressDirname svc j \<longleftrightarrow> address i = address j"
    unfolding di dj by simp
  have f: "path_join [getAddressDirname svc i, base] = path_join [getAddressDirname svc j, base]
             \<longleftrightarrow> address i = address j"
    if "plain_segment base" for base
    unfolding fi [OF that] fj [OF that] by simp
  show ?thesis
    using di d f [OF assms(2)] f [OF assms(3)] f [OF assms(4)]
    unfolding getConfigFilename_def getInputFilename_def getMetadataFilename_def
    by simp
qed

theorem address_used_verbatim_witness:
  "getAddressDirname DEFAULTS contract1_upper
     = ''contracts/1/0xDEADBEEFdeadbeefdeadbeefdeadbeefdeadbeef'' \<and>
   getAddressDirname DEFAULTS contract1_upper \<noteq> getAddressDirname DEFAULTS contract1 \<and>
   getMetadataFilename DEFAULTS contract1_upper \<noteq> getMetadataFilename DEFAULTS contract1"
proof -
  have c: "chainId contract1 = chainId contract1_upper"
    by (simp add: contract1_def contract1_upper_def)
  have p: "plain_segment (address contract1_upper)" "plain_segment (address contract1)"
    by (simp_all add: contract1_def contract1_upper_def plain_segment_def not_slash_def)
  have d: "dirname DEFAULTS @ ''/'' @ number_toString (chainId contract1_upper) @ ''/''
             @ address contract1_upper
             = ''contracts/1/0xDEADBEEFdeadbeefdeadbeefdeadbeefdeadbeef''"
    by (simp add: path_eval contract1_upper_def)
  have n: "address contract1_upper \<noteq> address contract1"
    by (simp add: contract1_def contract1_upper_def)
  from address_used_verbatim [OF clean_path_DEFAULTS plain_basenames_DEFAULTS c p] d n
  show ?thesis by metis
qed

section \<open>Properties of the operations on the store\<close>

text \<open>
  C3, as the claim states it: \<open>getConfig\<close> fails with the error of a file that is not
  found whenever the config file is absent. In \<open>store2\<close> a regular file stands where the
  directory of \<open>contract1\<close> should be: the store has no config file for \<open>contract1\<close>,
  and \<open>getConfig\<close> fails with \<open>ENOTDIR\<close>, not with \<open>ENOENT\<close>.
\<close>

theorem getConfig_not_a_directory_counterexample:
  "map_of (nodes store2) (fabs text_host (getConfigFilename DEFAULTS contract1)) = None \<and>
   getConfig text_host DEFAULTS contract1 store2 = Inl ENOTDIR \<and>
   getConfig text_host DEFAULTS contract1 store2 \<noteq> Inl ENOENT"
  by (simp add: path_eval store_eval contract1_def)

text \<open>
  C3, amended. \<open>getConfig\<close> fails with the file system's \<open>ENOENT\<close>, the error of a file
  that is not found, when the path of the config file leads to nothing, the file or a
  directory above it missing; it fails with \<open>ENOTDIR\<close> when a regular file stands where
  a directory of the path should be, and with \<open>EISDIR\<close> when the path leads to a
  directory; it fails with \<open>SyntaxError\<close>, the parser's error, when the file is there
  and its text is no JSON text; and it returns the parsed value when the file is there
  and its text is JSON text.
\<close>

theorem getConfig_results:
  "(lookup st (fabs h (getConfigFilename svc identity)) = Inl ENOENT
      \<longrightarrow> getConfig h svc identity st = Inl ENOENT) \<and>
   (lookup st (fabs h (getConfigFilename svc identity)) = Inl ENOTDIR
      \<longrightarrow> getConfig h svc identity st = Inl ENOTDIR) \<and>
   (lookup st (fabs h (getConfigFilename svc identity)) = Inr Dir
      \<longrightarrow> getConfig h svc identity st = Inl EISDIR) \<and>
   (lookup st (fabs h (getConfigFilename svc identity)) = Inr (File buf) \<and>
    JSON_parse h (utf8_toString h buf) = None
      \<longrightarrow> getConfig h svc identity st = Inl SyntaxError) \<and>
   (lookup st (fabs h (getConfigFilename svc identity)) = Inr (File buf) \<and>
    JSON_parse h (utf8_toString h buf) = Some v
      \<longrightarrow> getConfig h svc identity st = Inr v)"
  by (simp add: getConfig_def read_json_def readFile_def)

lemma config_names:
  "fabs text_host (getConfigFilename DEFAULTS contract1)
     = ''contracts/1/0xdeadbeefdeadbeefdeadbeefdeadbeefdeadbeef/configs.json''"
  "fabs text_host (getConfigFilename DEFAULTS contract2)
     = ''contracts/1/0x00000000000000000000000000000000000000aa/configs.json''"
  "fabs text_host (getConfigFilename DEFAULTS contract3)
     = ''contracts/1/0x00000000000000000000000000000000000000bb/configs.json''"
  by (simp_all add: path_eval text_host_def contract1_def contract2_def contract3_def)

theorem getConfig_results_witness:
  "getConfig text_host DEFAULTS contract3 store1 = Inl ENOENT \<and>
   getConfig text_host DEFAULTS contract1 store2 = Inl ENOTDIR \<and>
   getConfig text_host DEFAULTS contract2 store1 = Inl SyntaxError \<and>
   getConfig text_host DEFAULTS contract1 store1 = Inr ''{}''"
proof -
  have a: "lookup store1 (fabs text_host (getConfigFilename DEFAULTS contract3)) = Inl ENOENT"
    unfolding config_names by (simp add: lookup_def ancestors_def store1_def)
  have t: "lookup store2 (fabs text_host (getConfigFilename DEFAULTS contract1)) = Inl ENOTDIR"
    unfolding config_names by (simp add: lookup_def ancestors_def store2_def)
  have b: "lookup store1 (fabs text_host (getConfigFilename DEFAULTS contract2)) = Inr (File ''{'')"
    "JSON_parse text_host (utf8_toString text_host ''{'') = None"
    unfolding config_names by (simp_all add: lookup_def ancestors_def store1_def text_host_def)
  have c: "lookup store1 (fabs text_host (getConfigFilename DEFAULTS contract1)) = Inr (File ''{}'')"
    "JSON_parse text_host (utf8_toString text_host ''{}'') = Some ''{}''"
    unfolding config_names by (simp_all add: lookup_def ancestors_def store1_def text_host_def)
  from getConfig_results [of store1 text_host DEFAULTS contract3] a
  have 1: "getConfig text_host DEFAULTS contract3 store1 = Inl ENOENT" by blast
  from getConfig_results [of store2 text_host DEFAULTS contract1] t
  have 2: "getConfig text_host DEFAULTS contract1 store2 = Inl ENOTDIR" by blast
  from getConfig_results [of store1 text_host DEFAULTS contract2 "''{''"] b
  have 3: "getConfig text_host DEFAULTS contract2 store1 = Inl SyntaxError" by blast
  from getConfig_results [of store1 text_host DEFAULTS contract1 "''{}''" "''{}''"] c
  have 4: "getConfig text_host DEFAULTS contract1 store1 = Inr ''{}''" by blast
  from 1 2 3 4 show ?thesis by blast
qed

text \<open>
  C7. A second \<open>saveMetadata\<close> with the same identity and the same metadata, on the store
  that the first one leaves, ends as the first did and leaves that store as it is.
\<close>

theorem saveMetadata_idempotent:
  "saveMetadata h svc identity metadata (snd (saveMetadata h svc identity metadata st))
     = saveMetadata h svc identity metadata st"
proof -
  let ?f = "getMetadataFilename svc identity"
  show ?thesis
  proof (cases "?f \<in> set (locked st)")
    case True
    then show ?thesis by (simp add: saveMetadata_def writeJsonFile_def)
  next
    case False
    show ?thesis
    proof (cases "map_of (nodes st) ?f = Some Dir")
      case True
      with False show ?thesis by (simp add: saveMetadata_def writeJsonFile_def)
    next
      case notdir: False
      then have w: "writeJsonFile h ?f metadata True st =
          (Inr (), st \<lparr> nodes := AList.update ?f (File (JSON_stringify h metadata True)) (nodes st) \<rparr>)"
        using False by (auto simp: writeJsonFile_def split: option.splits node.splits)
      show ?thesis
        unfolding saveMetadata_def w
        using False by (simp add: writeJsonFile_def AList.update_conv')
    qed
  qed
qed

lemma first_failure_forget:
  "first_failure (map (\<lambda>(p, n). (p, case n of File buf \<Rightarrow> File [] | Dir \<Rightarrow> Dir)) ns) as
     = first_failure ns as"
proof (induction as)
  case Nil
  then show ?case by simp
next
  case (Cons a as)
  have "map_of (map (\<lambda>(p, n). (p, case n of File buf \<Rightarrow> File [] | Dir \<Rightarrow> Dir)) ns) a
      = map_option (\<lambda>n. case n of File buf \<Rightarrow> File [] | Dir \<Rightarrow> Dir) (map_of ns a)"
    by (induction ns) auto
  with Cons show ?case by (auto split: option.splits node.splits)
qed

lemma lookup_forget:
  "(\<exists>n. lookup (forget_contents st) p = Inr n) \<longleftrightarrow> (\<exists>n. lookup st p = Inr n)"
proof -
  have "map_of (map (\<lambda>(p, n). (p, case n of File buf \<Rightarrow> File [] | Dir \<Rightarrow> Dir)) ns) p
      = map_option (\<lambda>n. case n of File buf \<Rightarrow> File [] | Dir \<Rightarrow> Dir) (map_of ns p)" for ns
    by (induction ns) auto
  then show ?thesis
    by (auto simp: lookup_def forget_contents_def first_failure_forget split: option.splits)
qed

text \<open>
  C8. \<open>hasMetadata\<close> answers with a boolean and leaves the store as it is. The answer is
  whether the path of the metadata file of the identity leads to a node of the store;
  it is the same on the store with every file emptied, so that no content is read.
  For a service whose directory name and metadata base name \<open>path.join\<close> leaves as they
  are, and an address that is one path segment, that path is the directory name, the
  chain id, the address and the base name, in this order.
\<close>

theorem hasMetadata_existence_only:
  "snd (run h svc (HasMetadata identity) st) = st \<and>
   fst (run h svc (HasMetadata identity) st) = Answer (hasMetadata svc identity st) \<and>
   hasMetadata svc identity st = (\<exists>n. lookup st (getMetadataFilename svc identity) = Inr n) \<and>
   hasMetadata svc identity (forget_contents st) = hasMetadata svc identity st \<and>
   (clean_path (dirname svc) \<and> plain_segment (address identity) \<and>
    plain_segment (metadataBasename svc)
      \<longrightarrow> getMetadataFilename svc identity =
            dirname svc @ ''/'' @ number_toString (chainId identity) @ ''/'' @ address identity
              @ ''/'' @ metadataBasename svc)"
proof -
  have e: "hasMetadata svc identity st = (\<exists>n. lookup st (getMetadataFilename svc identity) = Inr n)"
    for st
    by (simp add: hasMetadata_def fexists_def split: sum.splits)
  have "hasMetadata svc identity (forget_contents st) = hasMetadata svc identity st"
    unfolding e by (rule lookup_forget)
  moreover have "getMetadataFilename svc identity =
      dirname svc @ ''/'' @ number_toString (chainId identity) @ ''/'' @ address identity
        @ ''/'' @ metadataBasename svc"
    if "clean_path (dirname svc)" "plain_segment (address identity)"
      "plain_segment (metadataBasename svc)"
    using filename_clean [OF that] by (simp add: getMetadataFilename_def)
  ultimately show ?thesis using e [of st] by simp
qed

theorem hasMetadata_existence_only_witness:
  "hasMetadata DEFAULTS contract1 (snd (saveMetadata text_host DEFAULTS contract1 ''{}'' store1)) \<and>
   \<not> hasMetadata DEFAULTS contract1 store1 \<and>
   hasMetadata DEFAULTS contract2 store1 = hasMetadata DEFAULTS contract2 (forget_contents store1) \<and>
   getMetadataFilename DEFAULTS contract1
     = ''contracts/1/0xdeadbeefdeadbeefdeadbeefdeadbeefdeadbeef/metadata.json''"
proof -
  let ?s = "snd (saveMetadata text_host DEFAULTS contract1 ''{}'' store1)"
  have f: "getMetadataFilename DEFAULTS contract1
      = ''contracts/1/0xdeadbeefdeadbeefdeadbeefdeadbeefdeadbeef/metadata.json''"
    by (simp add: path_eval contract1_def)
  have a: "\<exists>n. lookup ?s (getMetadataFilename DEFAULTS contract1) = Inr n"
    unfolding f by (simp add: saveMetadata_def f writeJsonFile_def lookup_def ancestors_def store1_def
        text_host_def)
  have b: "\<not> (\<exists>n. lookup store1 (getMetadataFilename DEFAULTS contract1) = Inr n)"
    unfolding f by (simp add: lookup_def ancestors_def store1_def)
  from hasMetadata_existence_only [of text_host DEFAULTS contract1 ?s] a
  have 1: "hasMetadata DEFAULTS contract1 ?s" by blast
  from hasMetadata_existence_only [of text_host DEFAULTS contract1 store1] b
  have 2: "\<not> hasMetadata DEFAULTS contract1 store1" by blast
  from hasMetadata_existence_only [of text_host DEFAULTS contract2 store1]
  have 3: "hasMetadata DEFAULTS contract2 store1 = hasMetadata DEFAULTS contract2 (forget_contents store1)"
    by metis
  from 1 2 3 f show ?thesis by blast
qed

section \<open>Properties of getChainContracts\<close>

subsection \<open>The text of a chain id, read back\<close>




lemma bit_length_unfold:
  "bit_length 0 = 0" "0 < n \<Longrightarrow> bit_length n = Suc (bit_length (n div 2))"
  by (simp_all add: bit_length.simps)

lemma bit_length_bounds: "2 ^ k \<le> n \<Longrightarrow> n < 2 ^ Suc k \<Longrightarrow> bit_length n = Suc k"
proof (induction k arbitrary: n)
  case 0
  then have "n = 1" by simp
  then show ?case by (simp add: bit_length_unfold)
next
  case (Suc k)
  have "2 ^ k \<le> n div 2" "n div 2 < 2 ^ Suc k" using Suc.prems by auto
  moreover have "0 < n"
    using Suc.prems(1) by (cases n) auto
  ultimately show ?case
    using Suc.IH [of "n div 2"] by (simp add: bit_length_unfold)
qed

lemma round_double_powers_of_ten:
  "round_double (10 ^ 17) = Some (10 ^ 17)" "round_double (10 ^ 21) = Some (10 ^ 21)"
  by (simp_all add: round_double_def bit_length_unfold Let_def)





text \<open>
  The number \<open>2\<^sup>5\<^sup>5\<close> prints with sixteen digits and a zero, not with its own digits,
  and so does the name of the directory of the chain of that id.
\<close>

lemma shortest_2_55: "shortest 36028797018963968 = Some (3602879701896397, 16, 17)"
proof -
  have d: "digits_of 36028797018963968 = ''36028797018963968''"
    by (simp add: digits_of_small digits_of_large digit_char_def char_of_def bit_iff_odd)
  show ?thesis
    by (simp add: shortest_def shortest_digits_def d round_double_powers_of_ten(1)
        round_double_def Let_def
        bit_length_bounds [of 54] bit_length_bounds [of 55] bit_length_bounds [of 56]
        distance_def List.map_filter_simps upt_rec [of 1])
qed

lemma number_toString_2_55:
  "number_toString (Finite 36028797018963968) = ''36028797018963970''"
  "getChainDirname DEFAULTS \<lparr> chainId = Finite 36028797018963968 \<rparr> = ''contracts/36028797018963970''"
proof -
  show t: "number_toString (Finite 36028797018963968) = ''36028797018963970''"
    by (simp add: number_toString_def nat_toString_def shortest_2_55 digits_of_small
        digits_of_large digit_char_def char_of_def bit_iff_odd)
  show "getChainDirname DEFAULTS \<lparr> chainId = Finite 36028797018963968 \<rparr> = ''contracts/36028797018963970''"
    using getChainDirname_clean(1) [OF clean_path_DEFAULTS, of "\<lparr> chainId = Finite 36028797018963968 \<rparr>"]
    by (simp add: t DEFAULTS_def)
qed

subsection \<open>The entries of a chain directory\<close>









lemma listing_store1:
  "listing store1 ''contracts/1'' =
     [''0xdeadbeefdeadbeefdeadbeefdeadbeefdeadbeef'', ''README'',
      ''0x00000000000000000000000000000000000000aa'']"
  by (simp add: listing_def store1_def entry_name_def plain_segment_def not_slash_def
      List.map_filter_simps)

text \<open>
  A directory name with a slash at its end: \<open>path.join\<close> drops the slash from the
  names of the entries, the expression of \<open>match\<close> keeps it, and no entry of a chain
  directory matches.
\<close>

lemma getChainContracts_of_slash_service:
  "getChainDirname slash_service \<lparr> chainId = Finite 1 \<rparr> = ''contracts/1''"
  "listing store1 (getChainDirname slash_service \<lparr> chainId = Finite 1 \<rparr>) =
     [''0xdeadbeefdeadbeefdeadbeefdeadbeefdeadbeef'', ''README'',
      ''0x00000000000000000000000000000000000000aa'']"
  "getChainContracts h slash_service \<lparr> chainId = Finite 1 \<rparr> store1 = Inr []"
proof -
  show d: "getChainDirname slash_service \<lparr> chainId = Finite 1 \<rparr> = ''contracts/1''"
    by (simp add: path_eval slash_service_def)
  show "listing store1 (getChainDirname slash_service \<lparr> chainId = Finite 1 \<rparr>) =
     [''0xdeadbeefdeadbeefdeadbeefdeadbeefdeadbeef'', ''README'',
      ''0x00000000000000000000000000000000000000aa'']"
    unfolding d by (rule listing_store1)
  have l: "lookup store1 ''contracts/1'' = Inr Dir"
    by (simp add: lookup_def ancestors_def store1_def)
  have j: "path_join [''contracts/1'', ''0xdeadbeefdeadbeefdeadbeefdeadbeefdeadbeef'']
             = ''contracts/1/0xdeadbeefdeadbeefdeadbeefdeadbeefdeadbeef''"
    "path_join [''contracts/1'', ''README''] = ''contracts/1/README''"
    "path_join [''contracts/1'', ''0x00000000000000000000000000000000000000aa'']
             = ''contracts/1/0x00000000000000000000000000000000000000aa''"
    by (simp_all add: path_eval)
  have m: "match h slash_service (''contracts/1/'' @ a) = Inr None" for a
    by (simp add: slash_service_def match_eval char_eval)
  show "getChainContracts h slash_service \<lparr> chainId = Finite 1 \<rparr> store1 = Inr []"
    using m [of "''0xdeadbeefdeadbeefdeadbeefdeadbeefdeadbeef''"] m [of "''README''"]
      m [of "''0x00000000000000000000000000000000000000aa''"]
    by (simp add: getChainContracts_def d readdir_def l listing_store1 j matchContractFiles_def)
qed




end
